theory Spec2Isabelle
  imports Complex_Main
begin

section \<open>FocusFlow: the PDF viewer of components/FileViewer.tsx\<close>

text \<open>
  The development follows the first (current) version of \<^verbatim>\<open>FileViewer.tsx\<close>: the
  \<^verbatim>\<open>FileViewer\<close> component, which owns the document, the shared scale, the
  visibility record and the current page, and the \<^verbatim>\<open>PDFPage\<close> component, one per
  page, which owns the canvas and the render task of its page.

  JavaScript numbers are modelled as \<^typ>\<open>real\<close>. Ratios are only compared, and in the
  concrete runs below the ratios that tie are one and the same literal. The products
  that size the canvas are rounded to doubles, as the code computes them, before they
  are floored. Page numbers and task identifiers are \<^typ>\<open>nat\<close>.
\<close>

subsection \<open>The visibility record\<close>

text \<open>
  \<^verbatim>\<open>pageVisibilityRef\<close> holds a JavaScript \<^verbatim>\<open>Map<number, number>\<close>. A \<^verbatim>\<open>Map\<close> iterates
  in insertion order, and \<^verbatim>\<open>set\<close> on a key that is present replaces the value where the
  key already stands; so the map is an association list in insertion order.
\<close>

type_synonym visibility_map = "(nat \<times> real) list"

fun map_set :: "nat \<Rightarrow> real \<Rightarrow> visibility_map \<Rightarrow> visibility_map" where
  "map_set k v [] = [(k, v)]"
| "map_set k v ((k', v') # m) =
     (if k' = k then (k, v) # m else (k', v') # map_set k v m)"

text \<open>
  The body of \<^verbatim>\<open>pageVisibilityRef.current.forEach((vis, page) => ...)\<close>, with the two
  local variables \<^verbatim>\<open>maxRatio\<close> and \<^verbatim>\<open>mostVisiblePage\<close> as the accumulator.
\<close>

fun forEach_scan :: "visibility_map \<Rightarrow> real \<times> nat \<Rightarrow> real \<times> nat" where
  "forEach_scan [] acc = acc"
| "forEach_scan ((page, vis) # m) (maxRatio, mostVisiblePage) =
     forEach_scan m (if vis > maxRatio then (vis, page) else (maxRatio, mostVisiblePage))"

subsection \<open>The state of the FileViewer component\<close>

text \<open>
  The \<^verbatim>\<open>useState\<close> values and the visibility map, and with them \<open>capturedPage\<close>: the
  value of \<^verbatim>\<open>currentPage\<close> inside the \<^verbatim>\<open>handleUpdateCurrentPage\<close> that the pages call.
  \<^verbatim>\<open>useCallback(..., [currentPage])\<close> builds that function when the component renders, so
  it holds the current page of the last render, not the one a call has just set.
\<close>

record viewer =
  pdfDoc :: "nat option"
  numPages :: nat
  scale :: real
  loading :: bool
  error :: "string option"
  currentPage :: nat
  capturedPage :: nat
  pageVisibility :: visibility_map
  showNotes :: bool

text \<open>
  \<^verbatim>\<open>handleUpdateCurrentPage(pageNum, ratio)\<close>: store the ratio, scan the whole map
  starting from \<^verbatim>\<open>maxRatio = 0\<close> and \<^verbatim>\<open>mostVisiblePage = currentPage\<close>, and call
  \<^verbatim>\<open>setCurrentPage\<close> when the scan found another page than \<^verbatim>\<open>currentPage\<close>. Both
  occurrences of \<^verbatim>\<open>currentPage\<close> in the body are the captured value.
\<close>

definition handleUpdateCurrentPage :: "nat \<Rightarrow> real \<Rightarrow> viewer \<Rightarrow> viewer" where
  "handleUpdateCurrentPage pageNum ratio v =
     (let m = map_set pageNum ratio (pageVisibility v);
          mostVisiblePage = snd (forEach_scan m (0, capturedPage v))
      in if mostVisiblePage \<noteq> capturedPage v
         then v\<lparr>pageVisibility := m, currentPage := mostVisiblePage\<rparr>
         else v\<lparr>pageVisibility := m\<rparr>)"

text \<open>
  React renders the component again, the pages subscribe their observers with the new
  callback, and from then on the calls see the current page of this render.
\<close>

definition rerender :: "viewer \<Rightarrow> viewer" where
  "rerender v = v\<lparr>capturedPage := currentPage v\<rparr>"

text \<open>
  What happens to the tracking of the current page: a page reports its ratio, or the
  component renders. Reports with no render between them run the same callback, as the
  observers of several pages do when they are notified in one task.
\<close>

datatype tracker_event = Report nat real | Rendered

fun track :: "tracker_event list \<Rightarrow> viewer \<Rightarrow> viewer" where
  "track [] v = v"
| "track (Report pageNum ratio # es) v = track es (handleUpdateCurrentPage pageNum ratio v)"
| "track (Rendered # es) v = track es (rerender v)"

text \<open>The state of a freshly mounted \<^verbatim>\<open>FileViewer\<close> (the \<^verbatim>\<open>useState\<close> initial values).\<close>

definition viewer0 :: viewer where
  "viewer0 = \<lparr>pdfDoc = None, numPages = 0, scale = 1, loading = False, error = None,
              currentPage = 1, capturedPage = 1, pageVisibility = [], showNotes = False\<rparr>"

text \<open>
  The rule of the specification, written from its words: the page index with the
  maximum recorded ratio, ties broken by the lower page index. It is here to be compared
  with the scan of the source; \<open>None\<close> is the empty record.
\<close>

fun spec_select :: "visibility_map \<Rightarrow> (nat \<times> real) option" where
  "spec_select [] = None"
| "spec_select ((p, r) # m) =
     (case spec_select m of
        None \<Rightarrow> Some (p, r)
      | Some (q, x) \<Rightarrow> if x < r \<or> (x = r \<and> p < q) then Some (p, r) else Some (q, x))"

definition spec_currentPage :: "visibility_map \<Rightarrow> nat option" where
  "spec_currentPage m = map_option fst (spec_select m)"

subsection \<open>Scale: loading a document, the sidebar, the zoom buttons\<close>

text \<open>
  What the environment hands to \<^verbatim>\<open>loadPdf\<close>: \<^verbatim>\<open>getDocument(file.url)\<close> fails, or gives
  a document (an identifier and \<^verbatim>\<open>doc.numPages\<close>) whose first page either cannot be
  fetched (\<open>None\<close>) or has the natural width \<^verbatim>\<open>page.getViewport({ scale: 1.0 }).width\<close>.
\<close>

datatype load_result = LoadFailed | Loaded nat nat "real option"

definition load_error_message :: string where
  "load_error_message = ''Could not load PDF. It might be corrupted or incompatible.''"

definition availableWidth :: "real \<Rightarrow> bool \<Rightarrow> real" where
  "availableWidth innerWidth notes = innerWidth - (if notes then 384 else 0) - 48"

text \<open>
  \<^verbatim>\<open>loadPdf\<close>, run by the effect on \<^verbatim>\<open>[file.url, file.type]\<close> when the file is a PDF with a
  URL: the \<^verbatim>\<open>try\<close> block, the \<^verbatim>\<open>catch\<close> (either \<^verbatim>\<open>await\<close> may throw) and the
  \<^verbatim>\<open>finally\<close>. \<open>innerWidth\<close> is \<^verbatim>\<open>window.innerWidth\<close>.
\<close>

definition loadPdf :: "load_result \<Rightarrow> real \<Rightarrow> viewer \<Rightarrow> viewer" where
  "loadPdf res innerWidth v =
     (let v1 = v\<lparr>loading := True, error := None\<rparr>
      in case res of
           LoadFailed \<Rightarrow> v1\<lparr>error := Some load_error_message, loading := False\<rparr>
         | Loaded doc n page1 \<Rightarrow>
             (let v2 = v1\<lparr>pdfDoc := Some doc, numPages := n\<rparr>
              in case page1 of
                   None \<Rightarrow> v2\<lparr>error := Some load_error_message, loading := False\<rparr>
                 | Some naturalWidth \<Rightarrow>
                     (let fitWidthScale = availableWidth innerWidth (showNotes v) / naturalWidth
                      in v2\<lparr>scale := min fitWidthScale 1, loading := False\<rparr>)))"

text \<open>
  \<^verbatim>\<open>adjustScale\<close>, run 300 ms after the notes sidebar is toggled. \<open>clientWidth\<close> is
  \<^verbatim>\<open>containerRef.current?.clientWidth\<close>, where \<^verbatim>\<open>||\<close> falls back to the window width when
  it is missing or 0; \<open>page1\<close> is as above, and a failure is ignored.
\<close>

definition adjustScale :: "real option \<Rightarrow> real \<Rightarrow> real option \<Rightarrow> viewer \<Rightarrow> viewer" where
  "adjustScale clientWidth innerWidth page1 v =
     (case page1 of
        None \<Rightarrow> v
      | Some naturalWidth \<Rightarrow>
          (let containerWidth =
                 (case clientWidth of
                    None \<Rightarrow> innerWidth
                  | Some w \<Rightarrow> if w = 0 then innerWidth else w);
               fitScale = (containerWidth - 64) / naturalWidth
           in v\<lparr>scale := min fitScale 1\<rparr>))"

text \<open>\<^verbatim>\<open>changeZoom(delta)\<close>; the toolbar timer it restarts is not part of the model.\<close>

definition changeZoom :: "real \<Rightarrow> viewer \<Rightarrow> viewer" where
  "changeZoom delta v = v\<lparr>scale := max (2 / 10) (min 5 (scale v + delta))\<rparr>"

subsection \<open>The canvas of a page\<close>

text \<open>
  The products in this part are products of JavaScript numbers, IEEE 754 doubles: the
  exact product rounded to the nearest double, a tie going to the even significand.
  \<open>double\<close> is that rounding on the reals, for a significand of 53 bits: the spacing of
  the doubles around \<open>x\<close> is \<open>2 powi (e - 52)\<close> where \<open>2 powi e \<le> \<bar>x\<bar> < 2 powi (e + 1)\<close>, and
  stays \<open>2 powi (- 1074)\<close> below \<open>2 powi (- 1022)\<close>. A magnitude so large that JavaScript
  rounds it to an infinity is outside the model.
\<close>

definition round_half_even :: "real \<Rightarrow> int" where
  "round_half_even q =
     (let f = \<lfloor>q\<rfloor>; d = q - of_int f
      in if d < 1 / 2 then f else if 1 / 2 < d then f + 1 else if even f then f else f + 1)"

definition double :: "real \<Rightarrow> real" where
  "double x =
     (if x = 0 then 0
      else (let e = max \<lfloor>log 2 \<bar>x\<bar>\<rfloor> (- 1022) - 52
            in of_int (round_half_even (x / 2 powi e)) * 2 powi e))"

text \<open>
  \<^verbatim>\<open>page.getViewport({ scale })\<close> belongs to pdfjs-dist; for an unrotated page it is the
  natural size of the page times the scale, the specification's
  \<^verbatim>\<open>naturalSize * scale\<close>, each a product of doubles. A size is a pair (width, height).
\<close>

definition getViewport :: "real \<times> real \<Rightarrow> real \<Rightarrow> real \<times> real" where
  "getViewport naturalSize sc = (double (fst naturalSize * sc), double (snd naturalSize * sc))"

text \<open>\<^verbatim>\<open>window.devicePixelRatio || 1\<close>: a missing ratio is read as 0 here, which is falsy.\<close>

definition dpr_or_1 :: "real \<Rightarrow> real" where
  "dpr_or_1 devicePixelRatio = (if devicePixelRatio = 0 then 1 else devicePixelRatio)"

text \<open>
  What the DOM does with the assigned values. \<^verbatim>\<open>canvas.width\<close> and \<^verbatim>\<open>canvas.height\<close> are
  \<^verbatim>\<open>unsigned long\<close> attributes: the integer is taken modulo \<open>2 ^ 32\<close>, and a result above
  2147483647 (as for every negative size above \<open>- 2 ^ 31\<close>) gives the default of the
  attribute, 300 or 150. A negative length in \<^verbatim>\<open>style.width\<close> or \<^verbatim>\<open>style.height\<close> is not
  valid CSS, and the style keeps what it had.
\<close>

definition store_dimension :: "int \<Rightarrow> int \<Rightarrow> int" where
  "store_dimension dflt n = (let u = n mod 2 ^ 32 in if u \<le> 2147483647 then u else dflt)"

definition store_style :: "int \<Rightarrow> int option \<Rightarrow> int option" where
  "store_style n old = (if n < 0 then old else Some n)"

text \<open>
  The four assignments under \<^verbatim>\<open>// High DPI support\<close>, to the canvas \<open>c\<close>. The style sizes
  are the numbers in front of \<^verbatim>\<open>px\<close>; a canvas that has not been sized has none.
\<close>

record canvas =
  canvas_width :: int
  canvas_height :: int
  style_width :: "int option"
  style_height :: "int option"

definition size_canvas :: "real \<times> real \<Rightarrow> real \<Rightarrow> canvas \<Rightarrow> canvas" where
  "size_canvas viewport dpr c =
     \<lparr>canvas_width = store_dimension 300 \<lfloor>double (fst viewport * dpr)\<rfloor>,
      canvas_height = store_dimension 150 \<lfloor>double (snd viewport * dpr)\<rfloor>,
      style_width = store_style \<lfloor>fst viewport\<rfloor> (style_width c),
      style_height = store_style \<lfloor>snd viewport\<rfloor> (style_height c)\<rparr>"

text \<open>A canvas element as the browser creates it: 300 by 150, no style size.\<close>

definition new_canvas :: canvas where
  "new_canvas = \<lparr>canvas_width = 300, canvas_height = 150, style_width = None, style_height = None\<rparr>"

subsection \<open>The state of a PDFPage component\<close>

text \<open>
  A render task is an object of pdfjs-dist. The component uses it through
  \<^verbatim>\<open>page.render\<close>, \<^verbatim>\<open>task.cancel()\<close> and \<^verbatim>\<open>task.promise\<close>: the promise is pending while the
  task runs, resolves when the page is drawn, and rejects with an error named
  \<^verbatim>\<open>RenderingCancelledException\<close> once the task has been cancelled (the name the \<^verbatim>\<open>catch\<close>
  block tests) or with another error when drawing fails. \<^verbatim>\<open>cancel()\<close> on a task whose
  promise has settled changes nothing.
\<close>

datatype task_status = Running | Completed | Cancelled | Errored

record render_task =
  task_scale :: real
  status :: task_status

text \<open>
  A call of \<^verbatim>\<open>render()\<close> that waits at \<^verbatim>\<open>await pdfDoc.getPage(pageNum)\<close>, with the
  \<^verbatim>\<open>scale\<close> and the \<^verbatim>\<open>pageHeight\<close> its closure has captured.
\<close>

record invocation =
  inv_scale :: real
  inv_pageHeight :: "real option"

text \<open>
  The props (\<open>pageNum\<close>, \<open>slot_pdfDoc\<close>, \<open>slot_scale\<close>), the three \<^verbatim>\<open>useState\<close> values, the
  two refs, and what the component has set in motion outside itself: the tasks it has
  started, identified by their position, the calls of \<^verbatim>\<open>render()\<close> that wait for their
  page, and the lines it has written with \<^verbatim>\<open>console.error\<close> (page number and error name).
\<close>

record slot =
  pageNum :: nat
  slot_pdfDoc :: "nat option"
  slot_scale :: real
  isVisible :: bool
  isRendered :: bool
  pageHeight :: "real option"
  canvasRef :: "canvas option"
  renderTaskRef :: "nat option"
  tasks :: "render_task list"
  awaiting :: "invocation list"
  console :: "(nat \<times> string) list"

text \<open>
  A mounted component. The render effect runs once at mount and returns at its first
  line, because \<open>isVisible\<close> is false.
\<close>

definition mount :: "nat \<Rightarrow> nat option \<Rightarrow> real \<Rightarrow> slot" where
  "mount pn doc sc =
     \<lparr>pageNum = pn, slot_pdfDoc = doc, slot_scale = sc, isVisible = False,
      isRendered = False, pageHeight = None, canvasRef = Some new_canvas,
      renderTaskRef = None, tasks = [], awaiting = [], console = []\<rparr>"

text \<open>JavaScript truthiness of \<^verbatim>\<open>pageHeight\<close> (\<^verbatim>\<open>number | null\<close>).\<close>

definition truthy :: "real option \<Rightarrow> bool" where
  "truthy h = (case h of None \<Rightarrow> False | Some x \<Rightarrow> x \<noteq> 0)"

text \<open>
  The render effect up to its first \<^verbatim>\<open>await\<close>: the guard, then \<^verbatim>\<open>render()\<close> is called and
  waits for the page.
\<close>

definition renderEffect :: "slot \<Rightarrow> slot" where
  "renderEffect s =
     (if \<not> isVisible s \<or> slot_pdfDoc s = None \<or> canvasRef s = None then s
      else s\<lparr>awaiting := awaiting s @ [\<lparr>inv_scale = slot_scale s, inv_pageHeight = pageHeight s\<rparr>]\<rparr>)"

text \<open>
  The cleanup of the render effect: an \<^verbatim>\<open>if (renderTaskRef.current)\<close> whose body is the
  comment "We generally don't cancel on unmount for scrolling lists to avoid flashing".
\<close>

definition renderEffectCleanup :: "slot \<Rightarrow> slot" where
  "renderEffectCleanup s = (if renderTaskRef s \<noteq> None then s else s)"

text \<open>
  The observer callback, for the part that stays in the component: \<^verbatim>\<open>setIsVisible(true)\<close>.
  When that changes the state the effect runs again, \<open>isVisible\<close> being one of its
  dependencies.
\<close>

definition observe :: "bool \<Rightarrow> slot \<Rightarrow> slot" where
  "observe isIntersecting s =
     (if isIntersecting \<and> \<not> isVisible s
      then renderEffect (renderEffectCleanup (s\<lparr>isVisible := True\<rparr>))
      else s)"

text \<open>The parent renders the page with new props; the effect runs again when one changed.\<close>

definition setProps :: "nat option \<Rightarrow> real \<Rightarrow> slot \<Rightarrow> slot" where
  "setProps doc sc s =
     (if doc = slot_pdfDoc s \<and> sc = slot_scale s then s
      else renderEffect (renderEffectCleanup (s\<lparr>slot_pdfDoc := doc, slot_scale := sc\<rparr>)))"

text \<open>The name of the error with which the promise of a cancelled task rejects.\<close>

definition cancelled_name :: string where
  "cancelled_name = ''RenderingCancelledException''"

text \<open>The \<^verbatim>\<open>catch\<close> block of \<^verbatim>\<open>render()\<close>.\<close>

definition render_catch :: "string \<Rightarrow> slot \<Rightarrow> slot" where
  "render_catch name s =
     (if name \<noteq> cancelled_name
      then s\<lparr>console := console s @ [(pageNum s, name)]\<rparr>
      else s)"

text \<open>\<^verbatim>\<open>task.cancel()\<close> on the task at position \<open>t\<close>.\<close>

definition cancel_task :: "nat \<Rightarrow> render_task list \<Rightarrow> render_task list" where
  "cancel_task t ts =
     (if t < length ts \<and> status (ts ! t) = Running
      then ts[t := (ts ! t)\<lparr>status := Cancelled\<rparr>]
      else ts)"

text \<open>\<^verbatim>\<open>if (renderTaskRef.current) { renderTaskRef.current.cancel(); }\<close>\<close>

definition cancelPrevious :: "slot \<Rightarrow> slot" where
  "cancelPrevious s =
     (case renderTaskRef s of
        None \<Rightarrow> s
      | Some t \<Rightarrow> s\<lparr>tasks := cancel_task t (tasks s)\<rparr>)"

text \<open>\<^verbatim>\<open>const task = page.render(renderContext); renderTaskRef.current = task;\<close>\<close>

definition startTask :: "real \<Rightarrow> slot \<Rightarrow> slot" where
  "startTask sc s =
     s\<lparr>renderTaskRef := Some (length (tasks s)),
       tasks := tasks s @ [\<lparr>task_scale = sc, status = Running\<rparr>]\<rparr>"

text \<open>
  The page of the waiting call at position \<open>i\<close> arrives, and the call runs on to its
  second \<^verbatim>\<open>await\<close>. First part: the call leaves the waiting ones, and the height of the
  viewport (the page of natural size \<open>naturalSize\<close> at the captured scale) becomes the
  page height when the captured page height is falsy; \<^verbatim>\<open>onDimensionsLoad\<close> is passed as
  \<^verbatim>\<open>() => {}\<close>.
\<close>

definition page_arrived :: "nat \<Rightarrow> real \<times> real \<Rightarrow> slot \<Rightarrow> slot" where
  "page_arrived i naturalSize s =
     (let inv = awaiting s ! i;
          viewport = getViewport naturalSize (inv_scale inv);
          s1 = s\<lparr>awaiting := take i (awaiting s) @ drop (Suc i) (awaiting s)\<rparr>
      in if \<not> truthy (inv_pageHeight inv) then s1\<lparr>pageHeight := Some (snd viewport)\<rparr> else s1)"

text \<open>
  Second part: the canvas (the non-null assertion: a missing canvas is a \<^verbatim>\<open>TypeError\<close> at
  \<^verbatim>\<open>getContext\<close>, caught below), the early return without a 2d context, the canvas
  sizes, the cancellation of the previous task, the new task.
\<close>

definition resume_render :: "nat \<Rightarrow> real \<times> real \<Rightarrow> real \<Rightarrow> bool \<Rightarrow> slot \<Rightarrow> slot" where
  "resume_render i naturalSize devicePixelRatio has_context s =
     (if length (awaiting s) \<le> i then s
      else
        (let sc = inv_scale (awaiting s ! i);
             viewport = getViewport naturalSize sc;
             s2 = page_arrived i naturalSize s
         in case canvasRef s2 of
              None \<Rightarrow> render_catch ''TypeError'' s2
            | Some c \<Rightarrow>
                if \<not> has_context then s2
                else startTask sc
                       (cancelPrevious
                          (s2\<lparr>canvasRef :=
                                Some (size_canvas viewport (dpr_or_1 devicePixelRatio) c)\<rparr>))))"

text \<open>\<^verbatim>\<open>pdfDoc.getPage(pageNum)\<close> rejects for the waiting call at position \<open>i\<close>.\<close>

definition fetch_failed :: "nat \<Rightarrow> string \<Rightarrow> slot \<Rightarrow> slot" where
  "fetch_failed i name s =
     (if length (awaiting s) \<le> i then s
      else render_catch name (s\<lparr>awaiting := take i (awaiting s) @ drop (Suc i) (awaiting s)\<rparr>))"

text \<open>
  The promise of task \<open>t\<close> resolves, and \<^verbatim>\<open>setIsRendered(true)\<close> runs. Only a running task
  can resolve.
\<close>

definition task_resolved :: "nat \<Rightarrow> slot \<Rightarrow> slot" where
  "task_resolved t s =
     (if t < length (tasks s) \<and> status (tasks s ! t) = Running
      then s\<lparr>tasks := (tasks s)[t := (tasks s ! t)\<lparr>status := Completed\<rparr>], isRendered := True\<rparr>
      else s)"

text \<open>
  The promise of task \<open>t\<close> rejects and the \<^verbatim>\<open>catch\<close> block runs: with the cancellation
  error for a task that has been cancelled, with any other error for a running task,
  which has then failed.
\<close>

definition task_rejected :: "nat \<Rightarrow> string \<Rightarrow> slot \<Rightarrow> slot" where
  "task_rejected t name s =
     (if t < length (tasks s) \<and> status (tasks s ! t) = Cancelled \<and>
         name = cancelled_name
      then render_catch name s
      else if t < length (tasks s) \<and> status (tasks s ! t) = Running \<and>
         name \<noteq> cancelled_name
      then render_catch name (s\<lparr>tasks := (tasks s)[t := (tasks s ! t)\<lparr>status := Errored\<rparr>]\<rparr>)
      else s)"

text \<open>What can happen to a page, and a page going through a sequence of such events.\<close>

datatype slot_event =
    Observe bool real
  | SetProps "nat option" real
  | PageFetched nat "real \<times> real" real bool
  | PageFetchFailed nat string
  | TaskResolved nat
  | TaskRejected nat string

fun slot_step :: "slot_event \<Rightarrow> slot \<Rightarrow> slot" where
  "slot_step (Observe isIntersecting ratio) s = observe isIntersecting s"
| "slot_step (SetProps doc sc) s = setProps doc sc s"
| "slot_step (PageFetched i naturalSize devicePixelRatio has_context) s =
     resume_render i naturalSize devicePixelRatio has_context s"
| "slot_step (PageFetchFailed i name) s = fetch_failed i name s"
| "slot_step (TaskResolved t) s = task_resolved t s"
| "slot_step (TaskRejected t name) s = task_rejected t name s"

fun run :: "slot_event list \<Rightarrow> slot \<Rightarrow> slot" where
  "run [] s = s"
| "run (e # es) s = run es (slot_step e s)"

text \<open>The render tasks of a page that are in flight.\<close>

definition pending :: "slot \<Rightarrow> render_task list" where
  "pending s = filter (\<lambda>t. status t = Running) (tasks s)"

text \<open>
  What the component renders: the container with its \<^verbatim>\<open>minHeight\<close> (the page height, or
  800 while it is falsy), the spinner overlay while \<open>isRendered\<close> is false, and the
  canvas. The JSX has no other element.
\<close>

record page_view =
  minHeight :: real
  spinner :: bool
  shown_canvas :: "canvas option"

definition pageView :: "slot \<Rightarrow> page_view" where
  "pageView s =
     \<lparr>minHeight = (if truthy (pageHeight s) then the (pageHeight s) else 800),
      spinner = (\<not> isRendered s), shown_canvas = canvasRef s\<rparr>"

subsection \<open>The viewer with its pages\<close>

text \<open>
  Every \<^verbatim>\<open>PDFPage\<close> has its own state; \<^verbatim>\<open>registerVisibility\<close> is the one callback into the
  parent, called by the observer with the page number and the intersection ratio.
\<close>

record app =
  view :: viewer
  slots :: "nat \<Rightarrow> slot"

definition deliver :: "nat \<Rightarrow> slot_event \<Rightarrow> app \<Rightarrow> app" where
  "deliver p e a =
     \<lparr>view = (case e of
                Observe isIntersecting ratio \<Rightarrow> handleUpdateCurrentPage p ratio (view a)
              | _ \<Rightarrow> view a),
      slots = (slots a)(p := slot_step e (slots a p))\<rparr>"

subsection \<open>Closing the viewer and opening a file\<close>






subsection \<open>Consistency of a page with its render tasks\<close>

text \<open>
  The canvas is mounted, and a task that is in flight is the one \<^verbatim>\<open>renderTaskRef\<close> holds.
\<close>

definition slot_inv :: "slot \<Rightarrow> bool" where
  "slot_inv s \<longleftrightarrow>
     canvasRef s \<noteq> None \<and>
     (\<forall>t < length (tasks s). status (tasks s ! t) = Running \<longrightarrow> renderTaskRef s = Some t)"

section \<open>Properties of the visibility scan\<close>

lemma map_set_keys:
  "map fst (map_set k v m) = (if k \<in> fst ` set m then map fst m else map fst m @ [k])"
  by (induction m) (fastforce simp: image_iff)+

lemma map_set_distinct: "distinct (map fst m) \<Longrightarrow> distinct (map fst (map_set k v m))"
  by (simp add: map_set_keys)

lemma map_set_stores: "(k, v) \<in> set (map_set k v m)"
  by (induction m) auto

lemma forEach_scan_unchanged:
  "\<forall>(q, x) \<in> set m. x \<le> r \<Longrightarrow> forEach_scan m (r, p) = (r, p)"
  by (induction m arbitrary: r p) auto

lemma forEach_scan_first_max:
  "\<exists>(q, x) \<in> set m. r < x \<Longrightarrow>
   \<exists>before y after. m = before @ (snd (forEach_scan m (r, p)), y) # after \<and> r < y \<and>
      (\<forall>(q, x) \<in> set before. x < y) \<and> (\<forall>(q, x) \<in> set after. x \<le> y)"
proof (induction m arbitrary: r p)
  case Nil
  then show ?case by simp
next
  case (Cons a m)
  obtain q0 x0 where a: "a = (q0, x0)" by (cases a)
  show ?case
  proof (cases "r < x0")
    case True
    note first = True
    show ?thesis
    proof (cases "\<exists>(q, x) \<in> set m. x0 < x")
      case True
      from Cons.IH [OF True, of q0] obtain before y after where
        m: "m = before @ (snd (forEach_scan m (x0, q0)), y) # after" and y: "x0 < y" and
        b: "\<forall>(q, x) \<in> set before. x < y" and af: "\<forall>(q, x) \<in> set after. x \<le> y"
        by blast
      have "a # m = (a # before) @ (snd (forEach_scan (a # m) (r, p)), y) # after"
        using m a first by simp
      moreover have "r < y" using first y by simp
      moreover have "\<forall>(q, x) \<in> set (a # before). x < y" using b a y by simp
      ultimately show ?thesis using af by blast
    next
      case False
      then have le: "\<forall>(q, x) \<in> set m. x \<le> x0" by (auto simp: not_less)
      have "forEach_scan (a # m) (r, p) = (x0, q0)"
        using a first forEach_scan_unchanged [OF le] by simp
      then have "a # m = [] @ (snd (forEach_scan (a # m) (r, p)), x0) # m"
        using a by simp
      moreover have "\<forall>(q, x) \<in> set ([]::visibility_map). x < x0" by simp
      ultimately show ?thesis using first le by blast
    qed
  next
    case False
    then have ex: "\<exists>(q, x) \<in> set m. r < x" using Cons.prems a by auto
    from Cons.IH [OF ex, of p] obtain before y after where
      m: "m = before @ (snd (forEach_scan m (r, p)), y) # after" and y: "r < y" and
      b: "\<forall>(q, x) \<in> set before. x < y" and af: "\<forall>(q, x) \<in> set after. x \<le> y"
      by blast
    have "a # m = (a # before) @ (snd (forEach_scan (a # m) (r, p)), y) # after"
      using m a False by simp
    moreover have "\<forall>(q, x) \<in> set (a # before). x < y" using b a y False by simp
    ultimately show ?thesis using y af by blast
  qed
qed

lemma handleUpdateCurrentPage_fields:
  "pageVisibility (handleUpdateCurrentPage pn ratio v) =
     map_set pn ratio (pageVisibility v)"
  "capturedPage (handleUpdateCurrentPage pn ratio v) = capturedPage v"
  "currentPage (handleUpdateCurrentPage pn ratio v) =
     (if snd (forEach_scan (map_set pn ratio (pageVisibility v)) (0, capturedPage v)) \<noteq>
         capturedPage v
      then snd (forEach_scan (map_set pn ratio (pageVisibility v)) (0, capturedPage v))
      else currentPage v)"
  by (simp_all add: handleUpdateCurrentPage_def Let_def)

text \<open>A call whose callback has captured the current page sets what its scan selects.\<close>

lemma handleUpdateCurrentPage_fresh:
  assumes "capturedPage v = currentPage v"
  shows "currentPage (handleUpdateCurrentPage pn ratio v) =
           snd (forEach_scan (pageVisibility (handleUpdateCurrentPage pn ratio v))
                  (0, currentPage v))"
  using assms by (simp add: handleUpdateCurrentPage_fields)

lemma track_append: "track (es @ es') v = track es' (track es v)"
  by (induction es v rule: track.induct) simp_all

lemma track_rendered_report:
  "track (es @ [Rendered, Report pn ratio]) v =
     handleUpdateCurrentPage pn ratio (rerender (track es v))"
  by (simp add: track_append)

lemma rerender_fresh: "capturedPage (rerender v) = currentPage (rerender v)"
  by (simp add: rerender_def)

text \<open>
  The callback of the last render at work in a later call: page 2 reports 0.5 and
  page 1 reports 0.9 in one task of a fresh viewer. The second call finds page 1, which
  is the page it has captured, and sets nothing; page 2 stays current. With a render
  between the two reports page 1 becomes current.
\<close>

lemma stale_callback_example:
  "currentPage (track [Report 2 (5 / 10), Report 1 (9 / 10)] viewer0) = 2"
  "currentPage (track [Report 2 (5 / 10), Rendered, Report 1 (9 / 10)] viewer0) = 1"
  by (simp_all add: handleUpdateCurrentPage_def rerender_def viewer0_def)

lemma forEach_scan_unique_max:
  assumes "(p, r) \<in> set m" and "c < r" and "\<forall>(q, x) \<in> set m. q \<noteq> p \<longrightarrow> x < r"
  shows "snd (forEach_scan m (c, p0)) = p"
proof -
  from assms(1,2) have "\<exists>(q, x) \<in> set m. c < x" by auto
  from forEach_scan_first_max [OF this, of p0] obtain before y after where
    m: "m = before @ (snd (forEach_scan m (c, p0)), y) # after" and
    b: "\<forall>(q, x) \<in> set before. x < y" and af: "\<forall>(q, x) \<in> set after. x \<le> y"
    by blast
  let ?w = "snd (forEach_scan m (c, p0))"
  have all: "\<forall>(q, x) \<in> set m. x \<le> y"
  proof -
    have "set m = set before \<union> {(?w, y)} \<union> set after"
      by (subst m) auto
    with b af show ?thesis by fastforce
  qed
  have win: "(?w, y) \<in> set m" by (subst m) simp
  from all assms(1) have "r \<le> y" by auto
  show ?thesis
  proof (rule ccontr)
    assume "?w \<noteq> p"
    with win assms(3) have "y < r" by auto
    with \<open>r \<le> y\<close> show False by simp
  qed
qed

lemma spec_select_mem: "spec_select m = Some (p, r) \<Longrightarrow> (p, r) \<in> set m"
  by (induction m arbitrary: p r) (auto split: option.splits if_splits)

text \<open>The rule of the specification does select the lowest index among the maxima.\<close>

lemma spec_select_None: "spec_select m = None \<longleftrightarrow> m = []"
  by (cases m) (auto split: option.splits)

lemma spec_select_best:
  "spec_select m = Some (p, r) \<Longrightarrow> (q, x) \<in> set m \<Longrightarrow> x < r \<or> (x = r \<and> p \<le> q)"
proof (induction m arbitrary: p r)
  case Nil
  then show ?case by simp
next
  case (Cons a m)
  obtain p0 r0 where a: "a = (p0, r0)" by (cases a)
  show ?case
  proof (cases "spec_select m")
    case None
    then have "m = []" by (simp add: spec_select_None)
    with Cons.prems a show ?thesis by simp
  next
    case (Some b)
    obtain p1 r1 where b: "b = (p1, r1)" by (cases b)
    have tail: "(q, x) \<in> set m \<Longrightarrow> x < r1 \<or> (x = r1 \<and> p1 \<le> q)"
      using Cons.IH [of p1 r1] Some b by simp
    show ?thesis
    proof (cases "r1 < r0 \<or> (r1 = r0 \<and> p0 < p1)")
      case True
      then have "p = p0" "r = r0" using Cons.prems(1) a Some b by (auto split: if_splits)
      with True tail Cons.prems(2) a show ?thesis by auto
    next
      case False
      then have "p = p1" "r = r1" using Cons.prems(1) a Some b by (auto split: if_splits)
      with False tail Cons.prems(2) a show ?thesis by auto
    qed
  qed
qed

text \<open>
  When the pages stand in the record in ascending order, as they do when every page has
  reported in page order, and some ratio is positive, the scan and the rule of the
  specification select the same page.
\<close>

lemma scan_agrees_with_spec_when_ascending:
  assumes asc: "sorted_wrt (<) (map fst m)" and pos: "\<exists>(q, x) \<in> set m. 0 < x"
  shows "spec_currentPage m = Some (snd (forEach_scan m (0, c)))"
proof -
  let ?w = "snd (forEach_scan m (0, c))"
  from forEach_scan_first_max [OF pos, of c] obtain before y after where
    m: "m = before @ (?w, y) # after" and
    b: "\<forall>(q, x) \<in> set before. x < y" and af: "\<forall>(q, x) \<in> set after. x \<le> y"
    by blast
  have later: "\<forall>(q, x) \<in> set after. ?w < q"
  proof -
    from asc have "sorted_wrt (<) (map fst (before @ (?w, y) # after))"
      by (subst (asm) m) simp
    then show ?thesis by (auto simp: sorted_wrt_append)
  qed
  have "m \<noteq> []" by (subst m) simp
  then obtain p r where sel: "spec_select m = Some (p, r)"
    using spec_select_None [of m] by (cases "spec_select m") auto
  have win: "(?w, y) \<in> set m" by (subst m) simp
  from spec_select_best [OF sel win] have ge: "y < r \<or> (y = r \<and> p \<le> ?w)" .
  have "(p, r) \<in> set before \<or> (p, r) = (?w, y) \<or> (p, r) \<in> set after"
    using spec_select_mem [OF sel] by (subst (asm) m) auto
  then have "p = ?w"
  proof (elim disjE)
    assume "(p, r) \<in> set before"
    with b have "r < y" by auto
    with ge show ?thesis by simp
  next
    assume "(p, r) = (?w, y)"
    then show ?thesis by simp
  next
    assume "(p, r) \<in> set after"
    with af later have "r \<le> y" and "?w < p" by auto
    with ge show ?thesis by simp
  qed
  with sel show ?thesis by (simp add: spec_currentPage_def)
qed

subsection \<open>C1: which page the scan selects\<close>

text \<open>
  Claim C1, as the code has it. Take a visibility update whose callback has captured
  the current page, as it has when the component has rendered since the current page
  last changed. When no recorded ratio is positive after the update, the current page
  stays what it was; when some recorded ratio is positive, the current page is the first
  page, in the insertion order of the record, that holds the maximum ratio: every ratio
  recorded before it is strictly smaller, every ratio after it is at most equal. Among
  pages that share the maximum the earliest inserted one is selected, whatever its index.
\<close>

theorem scan_selects_first_maximum:
  assumes "capturedPage v = currentPage v"
  shows
  "((\<forall>(q, x) \<in> set (pageVisibility (handleUpdateCurrentPage pn ratio v)). x \<le> 0) \<longrightarrow>
      currentPage (handleUpdateCurrentPage pn ratio v) = currentPage v) \<and>
   ((\<exists>(q, x) \<in> set (pageVisibility (handleUpdateCurrentPage pn ratio v)). 0 < x) \<longrightarrow>
      (\<exists>before y after.
         pageVisibility (handleUpdateCurrentPage pn ratio v) =
           before @ (currentPage (handleUpdateCurrentPage pn ratio v), y) # after \<and>
         0 < y \<and> (\<forall>(q, x) \<in> set before. x < y) \<and> (\<forall>(q, x) \<in> set after. x \<le> y)))"
proof (intro conjI impI)
  assume "\<forall>(q, x) \<in> set (pageVisibility (handleUpdateCurrentPage pn ratio v)). x \<le> 0"
  from forEach_scan_unchanged [OF this, of "currentPage v"]
  show "currentPage (handleUpdateCurrentPage pn ratio v) = currentPage v"
    by (simp add: handleUpdateCurrentPage_fresh [OF assms])
next
  assume "\<exists>(q, x) \<in> set (pageVisibility (handleUpdateCurrentPage pn ratio v)). 0 < x"
  from forEach_scan_first_max [OF this, of "currentPage v"]
  show "\<exists>before y after.
         pageVisibility (handleUpdateCurrentPage pn ratio v) =
           before @ (currentPage (handleUpdateCurrentPage pn ratio v), y) # after \<and>
         0 < y \<and> (\<forall>(q, x) \<in> set before. x < y) \<and> (\<forall>(q, x) \<in> set after. x \<le> y)"
    by (simp add: handleUpdateCurrentPage_fresh [OF assms])
qed

text \<open>
  The record of the specification's example, \<open>{1: 0.4, 2: 0.9, 3: 0.9}\<close>, built in
  ascending order: page 2 stands before page 3 and is selected.
\<close>

theorem scan_selects_first_maximum_witness:
  "currentPage (handleUpdateCurrentPage 3 (9 / 10)
      (viewer0\<lparr>pageVisibility := [(1, 4 / 10), (2, 9 / 10)], currentPage := 2,
         capturedPage := 2\<rparr>)) = 2 \<and>
   (\<exists>before y after.
      pageVisibility (handleUpdateCurrentPage 3 (9 / 10)
        (viewer0\<lparr>pageVisibility := [(1, 4 / 10), (2, 9 / 10)], currentPage := 2,
           capturedPage := 2\<rparr>)) =
        before @ (2, y) # after \<and>
      0 < y \<and> (\<forall>(q, x) \<in> set before. x < y) \<and> (\<forall>(q, x) \<in> set after. x \<le> y))"
proof -
  let ?v = "viewer0\<lparr>pageVisibility := [(1, 4 / 10), (2, 9 / 10)], currentPage := 2,
         capturedPage := 2\<rparr>"
  have fresh: "capturedPage ?v = currentPage ?v" by simp
  have cur: "currentPage (handleUpdateCurrentPage 3 (9 / 10) ?v) = 2"
    by (simp add: handleUpdateCurrentPage_def viewer0_def)
  have pos: "\<exists>(q, x) \<in> set (pageVisibility (handleUpdateCurrentPage 3 (9 / 10) ?v)). 0 < x"
    by (simp add: handleUpdateCurrentPage_def viewer0_def)
  from scan_selects_first_maximum [OF fresh, of 3 "9 / 10"] pos cur
  show ?thesis by simp
qed

text \<open>
  C1 as the specification words it fails when the tied pages were inserted in descending
  order: page 3 reports 0.9, the component renders, then page 2 reports 0.9. The rule of
  the specification selects page 2, the scan keeps page 3.
\<close>

theorem lowest_index_tie_break_counterexample:
  "pageVisibility (track [Report 3 (9 / 10), Rendered, Report 2 (9 / 10)] viewer0) =
     [(3, 9 / 10), (2, 9 / 10)] \<and>
   spec_currentPage
     (pageVisibility (track [Report 3 (9 / 10), Rendered, Report 2 (9 / 10)] viewer0)) =
     Some 2 \<and>
   currentPage (track [Report 3 (9 / 10), Rendered, Report 2 (9 / 10)] viewer0) = 3"
  by (simp add: handleUpdateCurrentPage_def rerender_def viewer0_def spec_currentPage_def)

subsection \<open>C2: what the selection depends on\<close>

text \<open>
  Claim C2, as the code has it. Take two sequences of visibility updates and renders,
  from any two viewer states, each ending with a render and one more update, so that the
  last update runs a callback that has captured the current page. If the final records
  hold the same set of (page, ratio) pairs, and one page holds a positive ratio that is
  strictly larger than the ratio of every other page, then both runs end with that page
  as the current page, whatever the order of the updates and whatever page was current
  before.
\<close>

theorem unique_maximum_order_independent:
  assumes "set (pageVisibility (track (es1 @ [Rendered, Report p1 r1]) v1)) =
           set (pageVisibility (track (es2 @ [Rendered, Report p2 r2]) v2))"
    and "(p, r) \<in> set (pageVisibility (track (es1 @ [Rendered, Report p1 r1]) v1))"
    and "0 < r"
    and "\<forall>(q, x) \<in> set (pageVisibility (track (es1 @ [Rendered, Report p1 r1]) v1)).
           q \<noteq> p \<longrightarrow> x < r"
  shows "currentPage (track (es1 @ [Rendered, Report p1 r1]) v1) = p \<and>
         currentPage (track (es2 @ [Rendered, Report p2 r2]) v2) = p"
proof -
  have one: "currentPage (track (es1 @ [Rendered, Report p1 r1]) v1) = p"
    unfolding track_rendered_report handleUpdateCurrentPage_fresh [OF rerender_fresh]
    using assms(2,3,4) unfolding track_rendered_report
    by (intro forEach_scan_unique_max [of p r]) auto
  have two: "currentPage (track (es2 @ [Rendered, Report p2 r2]) v2) = p"
    unfolding track_rendered_report handleUpdateCurrentPage_fresh [OF rerender_fresh]
    using assms unfolding track_rendered_report
    by (intro forEach_scan_unique_max [of p r]) auto
  from one two show ?thesis ..
qed

text \<open>The same three ratios reported in opposite orders, from different current pages.\<close>

theorem unique_maximum_order_independent_witness:
  "currentPage (track ([Report 1 (4 / 10), Report 2 (9 / 10)] @ [Rendered, Report 3 (5 / 10)])
      viewer0) = 2 \<and>
   currentPage (track ([Report 3 (5 / 10), Report 2 (9 / 10)] @ [Rendered, Report 1 (4 / 10)])
      (viewer0\<lparr>currentPage := 7, capturedPage := 7\<rparr>)) = 2"
proof -
  let ?a = "track ([Report 1 (4 / 10), Report 2 (9 / 10)] @ [Rendered, Report 3 (5 / 10)])
      viewer0"
  let ?b = "track ([Report 3 (5 / 10), Report 2 (9 / 10)] @ [Rendered, Report 1 (4 / 10)])
      (viewer0\<lparr>currentPage := 7, capturedPage := 7\<rparr>)"
  have a: "pageVisibility ?a = [(1, 4 / 10), (2, 9 / 10), (3, 5 / 10)]"
    by (simp add: handleUpdateCurrentPage_def rerender_def viewer0_def)
  have b: "pageVisibility ?b = [(3, 5 / 10), (2, 9 / 10), (1, 4 / 10)]"
    by (simp add: handleUpdateCurrentPage_def rerender_def viewer0_def)
  have same: "set (pageVisibility ?a) = set (pageVisibility ?b)"
    unfolding a b by auto
  have mem: "(2, 9 / 10) \<in> set (pageVisibility ?a)" unfolding a by simp
  have rest: "\<forall>(q, x) \<in> set (pageVisibility ?a). q \<noteq> 2 \<longrightarrow> x < 9 / 10"
    unfolding a by simp
  show ?thesis
    by (rule unique_maximum_order_independent [OF same mem _ rest]) simp
qed

text \<open>
  C2 as worded fails twice, with a render before every update. With a tie at the
  maximum the order of insertion decides: the same two pairs give page 3 or page 2. With
  no positive ratio the previous current page decides: the same record gives page 1 or
  page 5.
\<close>

theorem order_dependence_counterexample:
  "set (pageVisibility (track [Report 3 (9 / 10), Rendered, Report 2 (9 / 10)] viewer0)) =
     set (pageVisibility (track [Report 2 (9 / 10), Rendered, Report 3 (9 / 10)] viewer0)) \<and>
   currentPage (track [Report 3 (9 / 10), Rendered, Report 2 (9 / 10)] viewer0) = 3 \<and>
   currentPage (track [Report 2 (9 / 10), Rendered, Report 3 (9 / 10)] viewer0) = 2 \<and>
   pageVisibility (track [Report 1 0] viewer0) =
     pageVisibility (track [Report 1 0] (viewer0\<lparr>currentPage := 5, capturedPage := 5\<rparr>)) \<and>
   currentPage (track [Report 1 0] viewer0) = 1 \<and>
   currentPage (track [Report 1 0] (viewer0\<lparr>currentPage := 5, capturedPage := 5\<rparr>)) = 5"
  by (auto simp add: handleUpdateCurrentPage_def rerender_def viewer0_def)

section \<open>Properties of the scale\<close>

lemma loadPdf_scale:
  "scale (loadPdf (Loaded doc n (Some naturalWidth)) innerWidth v) =
     min (availableWidth innerWidth (showNotes v) / naturalWidth) 1"
  by (simp add: loadPdf_def Let_def)

subsection \<open>C7: the scale after loading\<close>

text \<open>
  Claim C7. When a document has loaded and its first page has the natural width
  \<open>naturalWidth\<close>, the scale is \<open>min (availableWidth / naturalWidth) 1\<close>, where the
  available width is the container width the code computes from the window
  (\<^verbatim>\<open>window.innerWidth - (showNotes ? 384 : 0) - 48\<close>). It never exceeds 1, and it is 1
  whenever the quotient exceeds 1. A natural width of 0 is left out: there JavaScript
  divides to an infinity or NaN, which the reals do not have.
\<close>

theorem initial_scale_fit_to_width:
  assumes "naturalWidth \<noteq> 0"
  shows "scale (loadPdf (Loaded doc n (Some naturalWidth)) innerWidth v) =
           min (availableWidth innerWidth (showNotes v) / naturalWidth) 1 \<and>
         scale (loadPdf (Loaded doc n (Some naturalWidth)) innerWidth v) \<le> 1 \<and>
         (1 < availableWidth innerWidth (showNotes v) / naturalWidth \<longrightarrow>
            scale (loadPdf (Loaded doc n (Some naturalWidth)) innerWidth v) = 1)"
  by (simp add: loadPdf_scale)

text \<open>
  The example of the specification: an available width of 800 (a window of 848 with the
  notes closed) and a natural width of 1000 give 0.8; a window of 1248 gives 1.
\<close>

theorem initial_scale_fit_to_width_witness:
  "availableWidth 848 (showNotes viewer0) = 800 \<and>
   scale (loadPdf (Loaded 0 12 (Some 1000)) 848 viewer0) = 8 / 10 \<and>
   scale (loadPdf (Loaded 0 12 (Some 1000)) 848 viewer0) \<le> 1 \<and>
   1 < availableWidth 1248 (showNotes viewer0) / 1000 \<and>
   scale (loadPdf (Loaded 0 12 (Some 1000)) 1248 viewer0) = 1"
proof -
  have nz: "(1000::real) \<noteq> 0" by simp
  have a: "availableWidth 848 (showNotes viewer0) = 800"
    by (simp add: availableWidth_def viewer0_def)
  have b: "1 < availableWidth 1248 (showNotes viewer0) / 1000"
    by (simp add: availableWidth_def viewer0_def)
  from initial_scale_fit_to_width [OF nz, of 0 12 848 viewer0] a
       initial_scale_fit_to_width [OF nz, of 0 12 1248 viewer0] b
  show ?thesis by simp
qed

subsection \<open>C10: the zoom range does not bind the initial scale\<close>

text \<open>
  Claim C10. \<^verbatim>\<open>changeZoom\<close> always leaves the scale within [0.2, 5]. The scale that
  \<^verbatim>\<open>loadPdf\<close> sets is at most 1 and has no lower clamp: whenever the available width is
  less than 20% of the natural width of the first page, it is strictly below 0.2.
\<close>

theorem initial_scale_below_zoom_minimum:
  assumes "0 < naturalWidth"
    and "availableWidth innerWidth (showNotes v) < (2 / 10) * naturalWidth"
  shows "scale (loadPdf (Loaded doc n (Some naturalWidth)) innerWidth v) < 2 / 10 \<and>
         scale (loadPdf (Loaded doc n (Some naturalWidth)) innerWidth v) \<le> 1 \<and>
         2 / 10 \<le> scale (changeZoom delta v') \<and> scale (changeZoom delta v') \<le> 5"
proof -
  define q where "q = availableWidth innerWidth (showNotes v) / naturalWidth"
  from assms have "q < 2 / 10"
    unfolding q_def by (simp add: pos_divide_less_eq)
  then have "min q 1 < 2 / 10" and "min q 1 \<le> 1"
    by (simp_all add: min_less_iff_disj)
  moreover have "2 / 10 \<le> scale (changeZoom delta v') \<and> scale (changeZoom delta v') \<le> 5"
    by (simp add: changeZoom_def)
  ultimately show ?thesis
    unfolding loadPdf_scale q_def by blast
qed

text \<open>A window of 148 leaves 100 for a page 1000 wide: the scale is 0.1.\<close>

theorem initial_scale_below_zoom_minimum_witness:
  "scale (loadPdf (Loaded 0 12 (Some 1000)) 148 viewer0) = 1 / 10 \<and>
   scale (loadPdf (Loaded 0 12 (Some 1000)) 148 viewer0) < 2 / 10 \<and>
   2 / 10 \<le> scale (changeZoom (- 1 / 10) (loadPdf (Loaded 0 12 (Some 1000)) 148 viewer0)) \<and>
   scale (changeZoom (- 1 / 10) (loadPdf (Loaded 0 12 (Some 1000)) 148 viewer0)) \<le> 5"
proof -
  have pos: "(0::real) < 1000" by simp
  have small: "availableWidth 148 (showNotes viewer0) < (2 / 10) * 1000"
    by (simp add: availableWidth_def viewer0_def)
  have val: "scale (loadPdf (Loaded 0 12 (Some 1000)) 148 viewer0) = 1 / 10"
    by (simp add: loadPdf_scale availableWidth_def viewer0_def)
  from initial_scale_below_zoom_minimum [OF pos small, of 0 12 "- 1 / 10"
      "loadPdf (Loaded 0 12 (Some 1000)) 148 viewer0"] val
  show ?thesis by simp
qed

section \<open>Properties of the canvas\<close>

subsection \<open>Rounding to a double\<close>

lemma round_half_even_int [simp]: "round_half_even (of_int n) = n"
  by (simp add: round_half_even_def)

lemma floor_log2_eq:
  assumes "2 powi e \<le> \<bar>x\<bar>" and "\<bar>x\<bar> < 2 powi (e + 1)"
  shows "\<lfloor>log 2 \<bar>x::real\<bar>\<rfloor> = e"
proof -
  have "0 < (2::real) powi e" by simp
  with assms(1) have pos: "0 < \<bar>x\<bar>" by linarith
  have a: "(2::real) powr real_of_int e = 2 powi e"
    by (rule powr_real_of_int') simp_all
  have b: "(2::real) powr real_of_int (e + 1) = 2 powi (e + 1)"
    by (rule powr_real_of_int') simp_all
  have "(\<lfloor>log 2 \<bar>x\<bar>\<rfloor> = e) =
          (2 powr real_of_int e \<le> \<bar>x\<bar> \<and> \<bar>x\<bar> < 2 powr real_of_int (e + 1))"
    by (rule floor_log_eq_powr_iff [OF pos]) simp
  with assms show ?thesis unfolding a b by blast
qed

text \<open>The value of \<open>double\<close> at a number whose binade is known.\<close>

lemma double_eval:
  assumes "2 powi e \<le> \<bar>x\<bar>" and "\<bar>x\<bar> < 2 powi (e + 1)"
  shows "double x =
           of_int (round_half_even (x / 2 powi (max e (- 1022) - 52))) *
             2 powi (max e (- 1022) - 52)"
proof -
  have "0 < (2::real) powi e" by simp
  with assms(1) have "x \<noteq> 0" by linarith
  then show ?thesis
    by (simp add: double_def floor_log2_eq [OF assms] Let_def)
qed

lemma floor_log2_bounds:
  assumes "x \<noteq> (0::real)"
  shows "2 powi \<lfloor>log 2 \<bar>x\<bar>\<rfloor> \<le> \<bar>x\<bar>"
proof -
  from assms have pos: "0 < \<bar>x\<bar>" by simp
  have a: "(2::real) powr real_of_int \<lfloor>log 2 \<bar>x\<bar>\<rfloor> = 2 powi \<lfloor>log 2 \<bar>x\<bar>\<rfloor>"
    by (rule powr_real_of_int') simp_all
  have "(\<lfloor>log 2 \<bar>x\<bar>\<rfloor> = \<lfloor>log 2 \<bar>x\<bar>\<rfloor>) =
          (2 powr real_of_int \<lfloor>log 2 \<bar>x\<bar>\<rfloor> \<le> \<bar>x\<bar> \<and>
           \<bar>x\<bar> < 2 powr real_of_int (\<lfloor>log 2 \<bar>x\<bar>\<rfloor> + 1))"
    by (rule floor_log_eq_powr_iff [OF pos]) simp
  then show ?thesis unfolding a by simp
qed

text \<open>A number that is a double is not changed: products that are exact stay exact.\<close>

lemma double_exact:
  assumes x: "x = of_int m * 2 powi k" and m: "\<bar>m\<bar> < 2 ^ 53" and k: "- 1074 \<le> k"
  shows "double x = x"
proof (cases "x = 0")
  case True
  then show ?thesis by (simp add: double_def)
next
  case False
  define e where "e = max \<lfloor>log 2 \<bar>x\<bar>\<rfloor> (- 1022) - 52"
  have "2 powi \<lfloor>log 2 \<bar>x\<bar>\<rfloor> \<le> \<bar>x\<bar>" by (rule floor_log2_bounds [OF False])
  also have "\<bar>x\<bar> = of_int \<bar>m\<bar> * 2 powi k" by (simp add: x abs_mult)
  also have "\<dots> < 2 ^ 53 * 2 powi k"
  proof -
    from m have "real_of_int \<bar>m\<bar> < 2 ^ 53"
      by (metis of_int_less_iff of_int_numeral of_int_power)
    then show ?thesis by (simp add: mult_strict_right_mono)
  qed
  also have "\<dots> = 2 powi (53 + k)" by (simp add: power_int_add)
  finally have "(2::real) powi \<lfloor>log 2 \<bar>x\<bar>\<rfloor> < 2 powi (53 + k)" .
  then have "\<lfloor>log 2 \<bar>x\<bar>\<rfloor> < 53 + k"
    by (metis linorder_not_less power_int_increasing one_le_numeral)
  with k have ek: "e \<le> k" by (simp add: e_def)
  have "x / 2 powi e = of_int m * 2 powi (k - e)"
    by (simp add: x power_int_diff)
  also have "\<dots> = of_int (m * 2 ^ nat (k - e))"
    using ek by (simp add: power_int_def)
  finally have q: "x / 2 powi e = of_int (m * 2 ^ nat (k - e))" .
  have "double x = of_int (round_half_even (x / 2 powi e)) * 2 powi e"
    using False by (simp add: double_def e_def Let_def)
  also have "\<dots> = (x / 2 powi e) * 2 powi e"
    unfolding q by (simp only: round_half_even_int)
  also have "\<dots> = x" by simp
  finally show ?thesis .
qed

lemma double_of_int: "\<bar>n\<bar> < 2 ^ 53 \<Longrightarrow> double (of_int n) = of_int n"
  by (rule double_exact [of _ n 0]) simp_all

lemma double_numeral [simp]:
  "(numeral n :: int) < 2 ^ 53 \<Longrightarrow> double (numeral n) = numeral n"
  using double_of_int [of "numeral n"] by simp

lemma double_0 [simp]: "double 0 = 0"
  by (simp add: double_def)

lemma double_1 [simp]: "double 1 = 1"
  using double_of_int [of 1] by simp

text \<open>
  The double nearest to 0.57, the scale \<^verbatim>\<open>342 / 600\<close> of a page 600 wide in a window of
  390, and the sizes of that page: the products fall just below 342 and 456.
\<close>

lemma double_57: "double (57 / 100) = 5134103575202365 / 2 ^ 53"
  by (subst double_eval [of "- 1"]) (simp_all add: round_half_even_def)

lemma double_600_57: "double (600 * (5134103575202365 / 2 ^ 53)) = 342 - 1 / 2 ^ 44"
  by (subst double_eval [of 8]) (simp_all add: round_half_even_def)

lemma double_800_57: "double (800 * (5134103575202365 / 2 ^ 53)) = 456 - 1 / 2 ^ 44"
  by (subst double_eval [of 8]) (simp_all add: round_half_even_def)

lemma double_342_3: "double ((342 - 1 / 2 ^ 44) * 3) = 1026 - 1 / 2 ^ 42"
  by (subst double_eval [of 10]) (simp_all add: round_half_even_def)

lemma double_456_3: "double ((456 - 1 / 2 ^ 44) * 3) = 1368 - 1 / 2 ^ 42"
  by (subst double_eval [of 10]) (simp_all add: round_half_even_def)

subsection \<open>What the canvas is given\<close>

lemma store_dimension_in_range:
  "0 \<le> n \<Longrightarrow> n \<le> 2147483647 \<Longrightarrow> store_dimension dflt n = n"
  by (simp add: store_dimension_def Let_def)

lemma resume_render_canvas:
  assumes "i < length (awaiting s)" and "canvasRef s = Some c"
  shows "canvasRef (resume_render i naturalSize d True s) =
           Some (size_canvas (getViewport naturalSize (inv_scale (awaiting s ! i)))
                   (dpr_or_1 d) c)"
proof -
  have "canvasRef (page_arrived i naturalSize s) = canvasRef s"
    by (simp add: page_arrived_def Let_def)
  with assms show ?thesis
    by (simp add: resume_render_def Let_def startTask_def cancelPrevious_def
             split: option.splits)
qed

text \<open>
  Two more sizes, as the browser computes them. A page 595 wide at the double nearest to
  0.3 with pixel ratio 2 gets a canvas 357 wide: the first product rounds up to 178.5,
  although the exact product of the two doubles lies below it. A negative scale, which
  \<^verbatim>\<open>loadPdf\<close> sets for a window narrower than 48, leaves a new canvas as it is.
\<close>

lemma double_3_10: "double (3 / 10) = 5404319552844595 / 2 ^ 54"
  by (subst double_eval [of "- 2"]) (simp_all add: round_half_even_def)

lemma double_595_3_10: "double (595 * (5404319552844595 / 2 ^ 54)) = 357 / 2"
  by (subst double_eval [of 7]) (simp_all add: round_half_even_def)

lemma canvas_width_595:
  "canvas_width (size_canvas (getViewport (595, 842) (double (3 / 10))) 2 new_canvas) = 357"
  unfolding double_3_10 size_canvas_def getViewport_def fst_conv snd_conv double_595_3_10
  by (simp add: store_dimension_def)

lemma canvas_negative_scale:
  "size_canvas (getViewport (600, 800) (- 1 / 2)) 1 new_canvas = new_canvas"
proof -
  have "double (- 300) = - 300" and "double (- 400) = - 400"
    using double_of_int [of "- 300"] double_of_int [of "- 400"] by simp_all
  then show ?thesis
    by (simp add: size_canvas_def getViewport_def store_dimension_def store_style_def
          new_canvas_def)
qed

subsection \<open>C6: the size of the canvas\<close>

text \<open>
  Claim C6, as the code has it. When a waiting render call gets its page (natural size
  \<open>(w, h)\<close>) and a 2d context, the canvas is given the backing-store size
  \<open>floor (naturalSize * scale * dpr)\<close> and the CSS size \<open>floor (naturalSize * scale)\<close>
  pixels, in both dimensions, each product being the product of doubles that JavaScript
  computes (the exact product rounded to a double), where \<open>scale\<close> is the scale the call
  has captured and \<open>dpr\<close> is \<^verbatim>\<open>window.devicePixelRatio || 1\<close>. This is for sizes that the
  DOM stores as they are: CSS sizes that are not negative, backing-store sizes from 0 to
  2147483647.
\<close>

theorem canvas_sizes_are_floors:
  assumes "i < length (awaiting s)" and "canvasRef s \<noteq> None"
    and "sc = inv_scale (awaiting s ! i)" and "dpr = dpr_or_1 d"
    and "0 \<le> \<lfloor>double (w * sc)\<rfloor>" and "0 \<le> \<lfloor>double (h * sc)\<rfloor>"
    and "0 \<le> \<lfloor>double (double (w * sc) * dpr)\<rfloor>"
    and "\<lfloor>double (double (w * sc) * dpr)\<rfloor> \<le> 2147483647"
    and "0 \<le> \<lfloor>double (double (h * sc) * dpr)\<rfloor>"
    and "\<lfloor>double (double (h * sc) * dpr)\<rfloor> \<le> 2147483647"
  shows "canvasRef (resume_render i (w, h) d True s) =
           Some \<lparr>canvas_width = \<lfloor>double (double (w * sc) * dpr)\<rfloor>,
                 canvas_height = \<lfloor>double (double (h * sc) * dpr)\<rfloor>,
                 style_width = Some \<lfloor>double (w * sc)\<rfloor>,
                 style_height = Some \<lfloor>double (h * sc)\<rfloor>\<rparr>"
proof -
  from assms(2) obtain c where c: "canvasRef s = Some c" by auto
  show ?thesis
    unfolding resume_render_canvas [OF assms(1) c]
    using assms(3-10)
    by (simp add: size_canvas_def getViewport_def store_dimension_in_range store_style_def)
qed

text \<open>
  A page of 600 by 800 at the double nearest to 0.57 on a display with pixel ratio 3:
  the canvas is 1025 by 1367 with a CSS size of 341 by 455, where the exact products
  would give 1026 by 1368 and 342 by 456.
\<close>

theorem canvas_sizes_are_floors_witness:
  "canvasRef (resume_render 0 (600, 800) 3 True
      (run [Observe True 1] (mount 1 (Some 0) (double (57 / 100))))) =
     Some \<lparr>canvas_width = 1025, canvas_height = 1367,
           style_width = Some 341, style_height = Some 455\<rparr>"
proof -
  let ?sc = "5134103575202365 / 2 ^ 53 :: real"
  let ?s = "run [Observe True 1] (mount 1 (Some 0) (double (57 / 100)))"
  have s: "?s = (mount 1 (Some 0) ?sc)\<lparr>isVisible := True,
       awaiting := [\<lparr>inv_scale = ?sc, inv_pageHeight = None\<rparr>]\<rparr>"
    unfolding double_57
    by (simp add: observe_def renderEffect_def renderEffectCleanup_def mount_def)
  have i: "0 < length (awaiting ?s)" and c: "canvasRef ?s \<noteq> None"
    and sc: "?sc = inv_scale (awaiting ?s ! 0)"
    unfolding s by (simp_all add: mount_def)
  have dpr: "(3::real) = dpr_or_1 3" by (simp add: dpr_or_1_def)
  have f1: "\<lfloor>342 - 1 / 2 ^ 44 :: real\<rfloor> = 341" by (simp add: floor_eq_iff)
  have f2: "\<lfloor>456 - 1 / 2 ^ 44 :: real\<rfloor> = 455" by (simp add: floor_eq_iff)
  have f3: "\<lfloor>1026 - 1 / 2 ^ 42 :: real\<rfloor> = 1025" by (simp add: floor_eq_iff)
  have f4: "\<lfloor>1368 - 1 / 2 ^ 42 :: real\<rfloor> = 1367" by (simp add: floor_eq_iff)
  have w: "\<lfloor>double (600 * ?sc)\<rfloor> = 341" and h: "\<lfloor>double (800 * ?sc)\<rfloor> = 455"
    and cw: "\<lfloor>double (double (600 * ?sc) * 3)\<rfloor> = 1025"
    and ch: "\<lfloor>double (double (800 * ?sc) * 3)\<rfloor> = 1367"
    unfolding double_600_57 double_800_57 double_342_3 double_456_3 f1 f2 f3 f4
    by (rule refl)+
  have "canvasRef (resume_render 0 (600, 800) 3 True ?s) =
          Some \<lparr>canvas_width = \<lfloor>double (double (600 * ?sc) * 3)\<rfloor>,
                canvas_height = \<lfloor>double (double (800 * ?sc) * 3)\<rfloor>,
                style_width = Some \<lfloor>double (600 * ?sc)\<rfloor>,
                style_height = Some \<lfloor>double (800 * ?sc)\<rfloor>\<rparr>"
    by (rule canvas_sizes_are_floors [OF i c sc dpr]) (unfold w h cw ch, simp_all)
  then show ?thesis unfolding w h cw ch .
qed

text \<open>
  C6 as worded fails for a page of 201 by 100 at scale 0.5 with pixel ratio 1.5, where
  every product is exact: \<open>201 * 0.5 * 1.5 = 150.75\<close>, whose ceiling is 151, while the
  canvas is 150 wide; and the CSS width is 100, not \<open>201 * 0.5 = 100.5\<close>.
\<close>

theorem backing_store_ceiling_counterexample:
  "canvas_width (size_canvas (getViewport (201, 100) (1 / 2)) (dpr_or_1 (3 / 2)) new_canvas) =
     150 \<and>
   \<lceil>(201::real) * (1 / 2) * (3 / 2)\<rceil> = 151 \<and>
   style_width (size_canvas (getViewport (201, 100) (1 / 2)) (dpr_or_1 (3 / 2)) new_canvas) =
     Some 100 \<and>
   (201::real) * (1 / 2) \<noteq> 100"
proof -
  have d1: "double (201 / 2) = 201 / 2"
    by (rule double_exact [of _ 201 "- 1"]) simp_all
  have d2: "double (603 / 4) = 603 / 4"
    by (rule double_exact [of _ 603 "- 2"]) simp_all
  have f1: "\<lfloor>201 / 2 :: real\<rfloor> = 100" and f2: "\<lfloor>603 / 4 :: real\<rfloor> = 150"
    and c: "\<lceil>603 / 4 :: real\<rceil> = 151"
    by (simp_all add: floor_eq_iff ceiling_eq_iff)
  show ?thesis
    by (simp add: size_canvas_def getViewport_def dpr_or_1_def store_dimension_def
          store_style_def d1 d2 f1 f2 c)
qed

section \<open>Properties of the render tasks of a page\<close>

subsection \<open>The invariant\<close>

lemma slot_inv_mount: "slot_inv (mount pn doc sc)"
  by (simp add: slot_inv_def mount_def)

lemma renderEffect_same [simp]:
  "tasks (renderEffect s) = tasks s" "renderTaskRef (renderEffect s) = renderTaskRef s"
  "canvasRef (renderEffect s) = canvasRef s" "isRendered (renderEffect s) = isRendered s"
  "console (renderEffect s) = console s"
  by (simp_all add: renderEffect_def)

lemma renderEffectCleanup_id [simp]: "renderEffectCleanup s = s"
  by (simp add: renderEffectCleanup_def)

lemma slot_inv_observe: "slot_inv s \<Longrightarrow> slot_inv (observe b s)"
  by (simp add: slot_inv_def observe_def)

lemma slot_inv_setProps: "slot_inv s \<Longrightarrow> slot_inv (setProps doc sc s)"
  by (simp add: slot_inv_def setProps_def)

lemma render_catch_same [simp]:
  "tasks (render_catch name s) = tasks s" "renderTaskRef (render_catch name s) = renderTaskRef s"
  "canvasRef (render_catch name s) = canvasRef s" "isRendered (render_catch name s) = isRendered s"
  "pageHeight (render_catch name s) = pageHeight s" "isVisible (render_catch name s) = isVisible s"
  by (simp_all add: render_catch_def)

lemma slot_inv_fetch_failed: "slot_inv s \<Longrightarrow> slot_inv (fetch_failed i name s)"
  by (simp add: slot_inv_def fetch_failed_def)

lemma slot_inv_task_resolved: "slot_inv s \<Longrightarrow> slot_inv (task_resolved t s)"
  by (auto simp: slot_inv_def task_resolved_def nth_list_update)

lemma slot_inv_task_rejected: "slot_inv s \<Longrightarrow> slot_inv (task_rejected t name s)"
  by (auto simp: slot_inv_def task_rejected_def nth_list_update)

lemma length_cancel_task [simp]: "length (cancel_task r ts) = length ts"
  by (simp add: cancel_task_def)

lemma cancel_task_nth:
  "t < length ts \<Longrightarrow>
   status (cancel_task r ts ! t) =
     (if t = r \<and> status (ts ! t) = Running then Cancelled else status (ts ! t))"
  by (auto simp: cancel_task_def nth_list_update)

lemma cancelPrevious_same [simp]:
  "length (tasks (cancelPrevious s)) = length (tasks s)"
  "canvasRef (cancelPrevious s) = canvasRef s" "console (cancelPrevious s) = console s"
  "isRendered (cancelPrevious s) = isRendered s" "pageHeight (cancelPrevious s) = pageHeight s"
  "renderTaskRef (cancelPrevious s) = renderTaskRef s" "awaiting (cancelPrevious s) = awaiting s"
  by (simp_all add: cancelPrevious_def split: option.splits)

text \<open>After the cancellation no task of a consistent page is running.\<close>

lemma cancelPrevious_none_running:
  assumes inv: "\<forall>t < length (tasks s). status (tasks s ! t) = Running \<longrightarrow> renderTaskRef s = Some t"
    and t: "t < length (tasks s)"
  shows "status (tasks (cancelPrevious s) ! t) \<noteq> Running"
proof (cases "renderTaskRef s")
  case None
  then have "tasks (cancelPrevious s) = tasks s" by (simp add: cancelPrevious_def)
  moreover have "status (tasks s ! t) \<noteq> Running" using inv t None by auto
  ultimately show ?thesis by simp
next
  case (Some r)
  then have eq: "tasks (cancelPrevious s) = cancel_task r (tasks s)"
    by (simp add: cancelPrevious_def)
  show ?thesis
  proof (cases "status (tasks s ! t) = Running")
    case True
    with inv t Some have "t = r" by auto
    with True t show ?thesis by (simp add: eq cancel_task_nth)
  next
    case False
    with t show ?thesis by (simp add: eq cancel_task_nth)
  qed
qed

lemma slot_inv_start_after_cancel:
  assumes "slot_inv s"
  shows "slot_inv (startTask sc (cancelPrevious s))"
proof -
  from assms have run: "\<forall>t < length (tasks s). status (tasks s ! t) = Running \<longrightarrow> renderTaskRef s = Some t"
    by (simp add: slot_inv_def)
  have none: "\<And>t. t < length (tasks s) \<Longrightarrow> status (tasks (cancelPrevious s) ! t) \<noteq> Running"
    by (rule cancelPrevious_none_running [OF run])
  have c: "canvasRef (startTask sc (cancelPrevious s)) \<noteq> None"
    using assms by (simp add: slot_inv_def startTask_def)
  have "renderTaskRef (startTask sc (cancelPrevious s)) = Some t"
    if "t < length (tasks (startTask sc (cancelPrevious s)))"
      and "status (tasks (startTask sc (cancelPrevious s)) ! t) = Running" for t
  proof (cases "t < length (tasks s)")
    case True
    with that(2) none [OF True] show ?thesis by (simp add: startTask_def nth_append)
  next
    case False
    with that(1) show ?thesis by (simp add: startTask_def)
  qed
  with c show ?thesis by (simp add: slot_inv_def)
qed

lemma page_arrived_same [simp]:
  "tasks (page_arrived i naturalSize s) = tasks s"
  "renderTaskRef (page_arrived i naturalSize s) = renderTaskRef s"
  "canvasRef (page_arrived i naturalSize s) = canvasRef s"
  "isRendered (page_arrived i naturalSize s) = isRendered s"
  "console (page_arrived i naturalSize s) = console s"
  by (simp_all add: page_arrived_def Let_def)

lemma resume_render_started:
  assumes "i < length (awaiting s)" and "canvasRef s \<noteq> None"
  shows "resume_render i naturalSize d True s =
           startTask (inv_scale (awaiting s ! i))
             (cancelPrevious ((page_arrived i naturalSize s)\<lparr>canvasRef :=
                Some (size_canvas (getViewport naturalSize (inv_scale (awaiting s ! i)))
                        (dpr_or_1 d) (the (canvasRef s)))\<rparr>))"
  using assms by (auto simp: resume_render_def Let_def)

lemma resume_render_no_context:
  assumes "i < length (awaiting s)" and "canvasRef s \<noteq> None"
  shows "resume_render i naturalSize d False s = page_arrived i naturalSize s"
  using assms by (auto simp: resume_render_def Let_def)

lemma resume_render_out_of_range:
  "length (awaiting s) \<le> i \<Longrightarrow> resume_render i naturalSize d ctx s = s"
  by (simp add: resume_render_def)

lemma slot_inv_resume_render:
  assumes "slot_inv s"
  shows "slot_inv (resume_render i naturalSize d ctx s)"
proof (cases "i < length (awaiting s)")
  case False
  with assms show ?thesis by (simp add: resume_render_out_of_range)
next
  case True
  from assms have c: "canvasRef s \<noteq> None" by (simp add: slot_inv_def)
  show ?thesis
  proof (cases ctx)
    case False
    with assms show ?thesis
      by (simp add: resume_render_no_context [OF True c] slot_inv_def)
  next
    case has: True
    have "slot_inv ((page_arrived i naturalSize s)\<lparr>canvasRef :=
                Some (size_canvas (getViewport naturalSize (inv_scale (awaiting s ! i)))
                        (dpr_or_1 d) (the (canvasRef s)))\<rparr>)"
      using assms by (simp add: slot_inv_def)
    then have "slot_inv (resume_render i naturalSize d True s)"
      unfolding resume_render_started [OF True c] by (rule slot_inv_start_after_cancel)
    with has show ?thesis by simp
  qed
qed

lemma slot_inv_step: "slot_inv s \<Longrightarrow> slot_inv (slot_step e s)"
  by (cases e)
     (simp_all add: slot_inv_observe slot_inv_setProps slot_inv_resume_render
        slot_inv_fetch_failed slot_inv_task_resolved slot_inv_task_rejected)

lemma slot_inv_run: "slot_inv s \<Longrightarrow> slot_inv (run es s)"
  by (induction es arbitrary: s) (simp_all add: slot_inv_step)

lemma slot_inv_reachable: "slot_inv (run es (mount pn doc sc))"
  by (rule slot_inv_run [OF slot_inv_mount])

lemma pending_at_most_one:
  assumes "slot_inv s"
  shows "length (pending s) \<le> 1"
proof -
  have "{i. i < length (tasks s) \<and> status (tasks s ! i) = Running} \<subseteq>
        (case renderTaskRef s of None \<Rightarrow> {} | Some t \<Rightarrow> {t})"
    using assms by (auto simp: slot_inv_def split: option.splits)
  then have "card {i. i < length (tasks s) \<and> status (tasks s ! i) = Running} \<le>
             card (case renderTaskRef s of None \<Rightarrow> {} | Some t \<Rightarrow> {t})"
    by (intro card_mono) (auto split: option.splits)
  also have "\<dots> \<le> 1" by (simp split: option.splits)
  finally show ?thesis
    by (simp add: pending_def length_filter_conv_card)
qed

text \<open>The definitions that evaluate a page on a concrete sequence of events.\<close>

lemmas slot_eval =
  mount_def new_canvas_def observe_def setProps_def renderEffect_def renderEffectCleanup_def
  resume_render_def page_arrived_def truthy_def getViewport_def dpr_or_1_def size_canvas_def
  store_dimension_def store_style_def
  startTask_def cancelPrevious_def cancel_task_def task_resolved_def task_rejected_def
  render_catch_def fetch_failed_def pending_def pageView_def cancelled_name_def Let_def

subsection \<open>C4: one pending render task\<close>

lemma pending_cancelPrevious:
  assumes "slot_inv s"
  shows "pending (cancelPrevious s) = []"
proof -
  from assms have run: "\<forall>t < length (tasks s). status (tasks s ! t) = Running \<longrightarrow> renderTaskRef s = Some t"
    by (simp add: slot_inv_def)
  have "status k \<noteq> Running" if "k \<in> set (tasks (cancelPrevious s))" for k
  proof -
    from that obtain t where "t < length (tasks s)" and "k = tasks (cancelPrevious s) ! t"
      by (auto simp: in_set_conv_nth)
    with cancelPrevious_none_running [OF run] show ?thesis by simp
  qed
  then show ?thesis by (simp add: pending_def filter_empty_conv)
qed

lemma pending_resume_render:
  assumes "slot_inv s" and "i < length (awaiting s)"
  shows "pending (resume_render i naturalSize d True s) =
           [\<lparr>task_scale = inv_scale (awaiting s ! i), status = Running\<rparr>]"
proof -
  let ?s' = "(page_arrived i naturalSize s)\<lparr>canvasRef :=
                Some (size_canvas (getViewport naturalSize (inv_scale (awaiting s ! i)))
                        (dpr_or_1 d) (the (canvasRef s)))\<rparr>"
  from assms(1) have c: "canvasRef s \<noteq> None" and inv': "slot_inv ?s'"
    by (simp_all add: slot_inv_def)
  have "pending (startTask (inv_scale (awaiting s ! i)) (cancelPrevious ?s')) =
          pending (cancelPrevious ?s') @ [\<lparr>task_scale = inv_scale (awaiting s ! i), status = Running\<rparr>]"
    by (simp add: pending_def startTask_def)
  then show ?thesis
    by (simp add: resume_render_started [OF assms(2) c] pending_cancelPrevious [OF inv'])
qed

text \<open>
  Claim C4. Whatever happens to a mounted page (visibility reports, scale and document
  changes, pages arriving or failing to arrive, tasks resolving or rejecting, in any
  order), at most one of its render tasks is in flight. The cancellation that precedes
  every \<^verbatim>\<open>page.render\<close> leaves no task in flight, and when a waiting render call starts
  its task, that new task is the only one in flight.
\<close>

theorem at_most_one_pending_render:
  "length (pending (run es (mount pn doc sc))) \<le> 1 \<and>
   pending (cancelPrevious (run es (mount pn doc sc))) = [] \<and>
   (\<forall>i naturalSize d. i < length (awaiting (run es (mount pn doc sc))) \<longrightarrow>
      pending (slot_step (PageFetched i naturalSize d True) (run es (mount pn doc sc))) =
        [\<lparr>task_scale = inv_scale (awaiting (run es (mount pn doc sc)) ! i), status = Running\<rparr>])"
  using pending_at_most_one [OF slot_inv_reachable, of es pn doc sc]
    pending_cancelPrevious [OF slot_inv_reachable, of es pn doc sc]
    pending_resume_render [OF slot_inv_reachable, of _ es pn doc sc]
  by simp


lemma scenario_restart:
  "run [Observe True 1, PageFetched 0 (600, 800) 1 True, SetProps (Some 0) 2] (mount 1 (Some 0) 1) =
     \<lparr>pageNum = 1, slot_pdfDoc = Some 0, slot_scale = 2, isVisible = True,
      isRendered = False, pageHeight = Some 800,
      canvasRef = Some \<lparr>canvas_width = 600, canvas_height = 800, style_width = Some 600,
                        style_height = Some 800\<rparr>,
      renderTaskRef = Some 0, tasks = [\<lparr>task_scale = 1, status = Running\<rparr>],
      awaiting = [\<lparr>inv_scale = 2, inv_pageHeight = Some 800\<rparr>], console = []\<rparr>"
  by (simp add: slot_eval)

text \<open>
  A page renders at scale 1, the scale changes to 2, and the second render call gets its
  page: the task at scale 1 was the one in flight, now the task at scale 2 is.
\<close>

theorem at_most_one_pending_render_witness:
  "pending (run [Observe True 1, PageFetched 0 (600, 800) 1 True, SetProps (Some 0) 2]
      (mount 1 (Some 0) 1)) = [\<lparr>task_scale = 1, status = Running\<rparr>] \<and>
   pending (cancelPrevious (run [Observe True 1, PageFetched 0 (600, 800) 1 True, SetProps (Some 0) 2]
      (mount 1 (Some 0) 1))) = [] \<and>
   pending (slot_step (PageFetched 0 (600, 800) 1 True)
      (run [Observe True 1, PageFetched 0 (600, 800) 1 True, SetProps (Some 0) 2]
         (mount 1 (Some 0) 1))) = [\<lparr>task_scale = 2, status = Running\<rparr>]"
proof -
  let ?s = "run [Observe True 1, PageFetched 0 (600, 800) 1 True, SetProps (Some 0) 2]
      (mount 1 (Some 0) 1)"
  have waits: "0 < length (awaiting ?s)" and sc: "inv_scale (awaiting ?s ! 0) = 2"
    and now: "pending ?s = [\<lparr>task_scale = 1, status = Running\<rparr>]"
    unfolding scenario_restart by (simp_all add: pending_def)
  from at_most_one_pending_render [of "[Observe True 1, PageFetched 0 (600, 800) 1 True,
      SetProps (Some 0) 2]" 1 "Some 0" 1] waits sc now
  show ?thesis by simp
qed

subsection \<open>C3: which completion is applied\<close>

lemma task_resolved_other:
  assumes "slot_inv s" and "renderTaskRef s \<noteq> Some t"
  shows "task_resolved t s = s"
  using assms by (auto simp: task_resolved_def slot_inv_def)

lemma task_resolved_after_restart:
  assumes "slot_inv s" and "i < length (awaiting s)" and "t < length (tasks s)"
  shows "task_resolved t (resume_render i naturalSize d True s) =
           resume_render i naturalSize d True s"
proof -
  from assms(1) have c: "canvasRef s \<noteq> None" by (simp add: slot_inv_def)
  have "renderTaskRef (resume_render i naturalSize d True s) = Some (length (tasks s))"
    by (simp add: resume_render_started [OF assms(2) c] startTask_def)
  with assms(3) have "renderTaskRef (resume_render i naturalSize d True s) \<noteq> Some t"
    by simp
  with slot_inv_resume_render [OF assms(1)] show ?thesis
    by (rule task_resolved_other)
qed

text \<open>
  Claim C3, as the code has it. For a mounted page after any sequence of events: the
  completion of a task other than the one held in \<^verbatim>\<open>renderTaskRef\<close> (the task started
  last) changes nothing; and once a waiting render call has started its task, which
  cancels the previous one, the completion of any earlier task changes nothing. The code
  compares no scales: what discards the render at the old scale is the cancellation by
  the render at the new scale.
\<close>

theorem completion_applies_to_latest_started_task:
  "(renderTaskRef (run es (mount pn doc sc)) \<noteq> Some t \<longrightarrow>
      slot_step (TaskResolved t) (run es (mount pn doc sc)) = run es (mount pn doc sc)) \<and>
   (i < length (awaiting (run es (mount pn doc sc))) \<and>
    t < length (tasks (run es (mount pn doc sc))) \<longrightarrow>
      slot_step (TaskResolved t)
        (slot_step (PageFetched i naturalSize d True) (run es (mount pn doc sc))) =
      slot_step (PageFetched i naturalSize d True) (run es (mount pn doc sc)))"
  using task_resolved_other [OF slot_inv_reachable, of es pn doc sc t]
    task_resolved_after_restart [OF slot_inv_reachable, of i es pn doc sc t naturalSize d]
  by simp

lemma scenario_restarted:
  "slot_step (PageFetched 0 (600, 800) 1 True)
     (run [Observe True 1, PageFetched 0 (600, 800) 1 True, SetProps (Some 0) 2]
        (mount 1 (Some 0) 1)) =
     \<lparr>pageNum = 1, slot_pdfDoc = Some 0, slot_scale = 2, isVisible = True,
      isRendered = False, pageHeight = Some 800,
      canvasRef = Some \<lparr>canvas_width = 1200, canvas_height = 1600, style_width = Some 1200,
                        style_height = Some 1600\<rparr>,
      renderTaskRef = Some 1,
      tasks = [\<lparr>task_scale = 1, status = Cancelled\<rparr>, \<lparr>task_scale = 2, status = Running\<rparr>],
      awaiting = [], console = []\<rparr>"
  unfolding scenario_restart by (simp add: slot_eval)

text \<open>
  The render at scale 2 has started and cancelled the render at scale 1: the completion
  of the latter leaves the page not rendered.
\<close>

theorem completion_applies_to_latest_started_task_witness:
  "isRendered (slot_step (TaskResolved 0)
     (slot_step (PageFetched 0 (600, 800) 1 True)
        (run [Observe True 1, PageFetched 0 (600, 800) 1 True, SetProps (Some 0) 2]
           (mount 1 (Some 0) 1)))) = False \<and>
   map task_scale (tasks (slot_step (TaskResolved 0)
     (slot_step (PageFetched 0 (600, 800) 1 True)
        (run [Observe True 1, PageFetched 0 (600, 800) 1 True, SetProps (Some 0) 2]
           (mount 1 (Some 0) 1))))) = [1, 2] \<and>
   map status (tasks (slot_step (TaskResolved 0)
     (slot_step (PageFetched 0 (600, 800) 1 True)
        (run [Observe True 1, PageFetched 0 (600, 800) 1 True, SetProps (Some 0) 2]
           (mount 1 (Some 0) 1))))) = [Cancelled, Running]"
proof -
  let ?s = "run [Observe True 1, PageFetched 0 (600, 800) 1 True, SetProps (Some 0) 2]
      (mount 1 (Some 0) 1)"
  have hyp: "0 < length (awaiting ?s) \<and> 0 < length (tasks ?s)"
    unfolding scenario_restart by simp
  from completion_applies_to_latest_started_task
         [of "[Observe True 1, PageFetched 0 (600, 800) 1 True, SetProps (Some 0) 2]"
             1 "Some 0" 1 0 0 "(600, 800)" 1] hyp
  have "slot_step (TaskResolved 0) (slot_step (PageFetched 0 (600, 800) 1 True) ?s) =
          slot_step (PageFetched 0 (600, 800) 1 True) ?s"
    by blast
  then show ?thesis
    unfolding scenario_restarted by simp
qed

text \<open>
  C3 as worded fails when the render at the old scale completes while the render call
  for the new scale still waits at \<^verbatim>\<open>await pdfDoc.getPage(pageNum)\<close>: the requested scale
  is 2, the only task is the one at scale 1, and its completion sets \<open>isRendered\<close>.
\<close>

theorem stale_completion_counterexample:
  "slot_scale (run [Observe True 1, PageFetched 0 (600, 800) 1 True, SetProps (Some 0) 2]
      (mount 1 (Some 0) 1)) = 2 \<and>
   \<not> isRendered (run [Observe True 1, PageFetched 0 (600, 800) 1 True, SetProps (Some 0) 2]
      (mount 1 (Some 0) 1)) \<and>
   tasks (run [Observe True 1, PageFetched 0 (600, 800) 1 True, SetProps (Some 0) 2]
      (mount 1 (Some 0) 1)) = [\<lparr>task_scale = 1, status = Running\<rparr>] \<and>
   slot_scale (slot_step (TaskResolved 0)
     (run [Observe True 1, PageFetched 0 (600, 800) 1 True, SetProps (Some 0) 2]
        (mount 1 (Some 0) 1))) = 2 \<and>
   isRendered (slot_step (TaskResolved 0)
     (run [Observe True 1, PageFetched 0 (600, 800) 1 True, SetProps (Some 0) 2]
        (mount 1 (Some 0) 1))) \<and>
   tasks (slot_step (TaskResolved 0)
     (run [Observe True 1, PageFetched 0 (600, 800) 1 True, SetProps (Some 0) 2]
        (mount 1 (Some 0) 1))) = [\<lparr>task_scale = 1, status = Completed\<rparr>]"
  unfolding scenario_restart by (simp add: task_resolved_def)

subsection \<open>C5: cancellation is silent\<close>

lemma errored_cancel_task:
  "map (\<lambda>k. status k = Errored) (cancel_task r ts) = map (\<lambda>k. status k = Errored) ts"
  by (rule nth_equalityI) (auto simp: cancel_task_nth)

lemma task_rejected_cancelled: "task_rejected t cancelled_name s = s"
  by (simp add: task_rejected_def render_catch_def)

text \<open>
  Claim C5. The \<^verbatim>\<open>catch\<close> block does nothing for the error of a cancelled task: when the
  promise of a task rejects with \<^verbatim>\<open>RenderingCancelledException\<close>, the page and the whole
  viewer with its \<open>error\<close> state are unchanged, and nothing is written to the console.
  The call of \<^verbatim>\<open>cancel()\<close> itself writes nothing to the console, changes nothing of what
  the page displays, and makes no task a failed one.
\<close>

theorem cancellation_is_silent:
  "render_catch cancelled_name s = s \<and>
   slot_step (TaskRejected t cancelled_name) s = s \<and>
   deliver p (TaskRejected t cancelled_name) a = a \<and>
   console (cancelPrevious s) = console s \<and>
   pageView (cancelPrevious s) = pageView s \<and>
   map (\<lambda>k. status k = Errored) (tasks (cancelPrevious s)) =
     map (\<lambda>k. status k = Errored) (tasks s)"
proof -
  have "map (\<lambda>k. status k = Errored) (tasks (cancelPrevious s)) =
          map (\<lambda>k. status k = Errored) (tasks s)"
    by (cases "renderTaskRef s") (simp_all add: cancelPrevious_def errored_cancel_task)
  moreover have "pageView (cancelPrevious s) = pageView s"
    by (simp add: pageView_def)
  moreover have "deliver p (TaskRejected t cancelled_name) a = a"
    by (simp add: deliver_def task_rejected_cancelled)
  ultimately show ?thesis
    by (simp add: task_rejected_cancelled render_catch_def)
qed

subsection \<open>C9: a failed render\<close>

lemma task_rejected_view:
  "pageView (task_rejected t name s) = pageView s"
  "isVisible (task_rejected t name s) = isVisible s"
  "isRendered (task_rejected t name s) = isRendered s"
  "pageHeight (task_rejected t name s) = pageHeight s"
  by (simp_all add: task_rejected_def pageView_def)

lemma task_rejected_running:
  assumes "name \<noteq> cancelled_name" and "t < length (tasks s)" and "status (tasks s ! t) = Running"
  shows "console (task_rejected t name s) = console s @ [(pageNum s, name)]"
    and "status (tasks (task_rejected t name s) ! t) = Errored"
  using assms by (simp_all add: task_rejected_def render_catch_def)

text \<open>
  Claim C9, as the code has it. When the promise of a render task of page \<open>p\<close> rejects
  with an error other than the cancellation, the viewer state (with its \<open>error\<close>) and
  every other page are unchanged; the state of the component of page \<open>p\<close> and what it
  displays are unchanged as well (a page that was not rendered keeps its spinner), and
  for a task that was in flight the only trace is one \<^verbatim>\<open>console.error\<close> line naming the
  page. The component has no failed state, records no error and renders no retry control.
\<close>

theorem render_failure_is_page_local:
  assumes "name \<noteq> cancelled_name"
  shows "view (deliver p (TaskRejected t name) a) = view a \<and>
         (\<forall>q. q \<noteq> p \<longrightarrow> slots (deliver p (TaskRejected t name) a) q = slots a q) \<and>
         pageView (slots (deliver p (TaskRejected t name) a) p) = pageView (slots a p) \<and>
         isVisible (slots (deliver p (TaskRejected t name) a) p) = isVisible (slots a p) \<and>
         isRendered (slots (deliver p (TaskRejected t name) a) p) = isRendered (slots a p) \<and>
         pageHeight (slots (deliver p (TaskRejected t name) a) p) = pageHeight (slots a p) \<and>
         (t < length (tasks (slots a p)) \<and> status (tasks (slots a p) ! t) = Running \<longrightarrow>
            console (slots (deliver p (TaskRejected t name) a) p) =
              console (slots a p) @ [(pageNum (slots a p), name)] \<and>
            status (tasks (slots (deliver p (TaskRejected t name) a) p) ! t) = Errored)"
  using task_rejected_running [OF assms, of t "slots a p"]
  by (simp add: deliver_def task_rejected_view)

lemma scenario_running:
  "run [Observe True 1, PageFetched 0 (600, 900) 1 True] (mount 1 (Some 0) 1) =
     \<lparr>pageNum = 1, slot_pdfDoc = Some 0, slot_scale = 1, isVisible = True,
      isRendered = False, pageHeight = Some 900,
      canvasRef = Some \<lparr>canvas_width = 600, canvas_height = 900, style_width = Some 600,
                        style_height = Some 900\<rparr>,
      renderTaskRef = Some 0, tasks = [\<lparr>task_scale = 1, status = Running\<rparr>],
      awaiting = [], console = []\<rparr>"
  by (simp add: slot_eval)

text \<open>The render of page 1 fails with an \<^verbatim>\<open>UnknownErrorException\<close>; page 2 is untouched.\<close>

theorem render_failure_is_page_local_witness:
  "console (slots (deliver 1 (TaskRejected 0 ''UnknownErrorException'')
      \<lparr>view = viewer0,
       slots = (\<lambda>p. mount p (Some 0) 1)
         (1 := run [Observe True 1, PageFetched 0 (600, 900) 1 True] (mount 1 (Some 0) 1))\<rparr>) 1) =
     [(1, ''UnknownErrorException'')] \<and>
   slots (deliver 1 (TaskRejected 0 ''UnknownErrorException'')
      \<lparr>view = viewer0,
       slots = (\<lambda>p. mount p (Some 0) 1)
         (1 := run [Observe True 1, PageFetched 0 (600, 900) 1 True] (mount 1 (Some 0) 1))\<rparr>) 2 =
     mount 2 (Some 0) 1 \<and>
   view (deliver 1 (TaskRejected 0 ''UnknownErrorException'')
      \<lparr>view = viewer0,
       slots = (\<lambda>p. mount p (Some 0) 1)
         (1 := run [Observe True 1, PageFetched 0 (600, 900) 1 True] (mount 1 (Some 0) 1))\<rparr>) =
     viewer0"
proof -
  let ?a = "\<lparr>view = viewer0,
       slots = (\<lambda>p. mount p (Some 0) 1)
         (1 := run [Observe True 1, PageFetched 0 (600, 900) 1 True] (mount 1 (Some 0) 1))\<rparr>"
  have name: "''UnknownErrorException'' \<noteq> cancelled_name"
    by (simp add: cancelled_name_def)
  have s1: "slots ?a 1 = run [Observe True 1, PageFetched 0 (600, 900) 1 True] (mount 1 (Some 0) 1)"
    by (simp only: app.select_convs fun_upd_same)
  have running: "0 < length (tasks (slots ?a 1)) \<and> status (tasks (slots ?a 1) ! 0) = Running"
    and c: "console (slots ?a 1) = []" and pn: "pageNum (slots ?a 1) = 1"
    unfolding s1 scenario_running by simp_all
  have other: "slots ?a 2 = mount 2 (Some 0) 1"
    by (simp only: app.select_convs fun_upd_apply) simp
  have two: "(2::nat) \<noteq> 1" by simp
  from render_failure_is_page_local [OF name, of 1 0 ?a] running c pn other two
  show ?thesis by simp
qed

text \<open>
  C9 as worded fails: after the failure the page displays exactly what it displayed
  while the render was in flight, the spinner over the canvas, and the state of the
  component has no record of the error.
\<close>

theorem failed_page_shows_no_error_counterexample:
  "pageView (run [Observe True 1, PageFetched 0 (600, 900) 1 True] (mount 1 (Some 0) 1)) =
     \<lparr>minHeight = 900, spinner = True,
      shown_canvas = Some \<lparr>canvas_width = 600, canvas_height = 900, style_width = Some 600,
                           style_height = Some 900\<rparr>\<rparr> \<and>
   pageView (slot_step (TaskRejected 0 ''UnknownErrorException'')
      (run [Observe True 1, PageFetched 0 (600, 900) 1 True] (mount 1 (Some 0) 1))) =
     \<lparr>minHeight = 900, spinner = True,
      shown_canvas = Some \<lparr>canvas_width = 600, canvas_height = 900, style_width = Some 600,
                           style_height = Some 900\<rparr>\<rparr> \<and>
   slot_step (TaskRejected 0 ''UnknownErrorException'')
      (run [Observe True 1, PageFetched 0 (600, 900) 1 True] (mount 1 (Some 0) 1)) =
     (run [Observe True 1, PageFetched 0 (600, 900) 1 True] (mount 1 (Some 0) 1))
       \<lparr>tasks := [\<lparr>task_scale = 1, status = Errored\<rparr>],
        console := [(1, ''UnknownErrorException'')]\<rparr>"
  unfolding scenario_running
  by (simp add: task_rejected_def render_catch_def pageView_def truthy_def cancelled_name_def)

section \<open>Properties of a document swap\<close>








subsection \<open>C8: what a document swap resets\<close>



end
